theory Spec2Isabelle
  imports Complex_Main "HOL-Library.Word"
begin

section \<open>JavaScript values\<close>

text \<open>
  The generation module handles values of TypeScript type \<open>unknown\<close>/\<open>any\<close>: whatever
  \<open>JSON.parse\<close> or the model client returns. They are modelled as a datatype of JavaScript
  values. An object lists its own properties in insertion order, each name once (where a
  list here repeats a name, the first occurrence is the property); a \<open>string\<close> is a list of
  code units below 256.
\<close>

datatype jsval =
    Undefined
  | Null
  | Bool bool
  | Number real
  | String string
  | Array "jsval list"
  | Object "(string \<times> jsval) list"

text \<open>JavaScript truthiness: what \<open>if (v)\<close>, \<open>!v\<close> and \<open>a && b\<close> test.\<close>

fun truthy :: "jsval \<Rightarrow> bool" where
  "truthy Undefined = False"
| "truthy Null = False"
| "truthy (Bool b) = b"
| "truthy (Number r) = (r \<noteq> 0)"
| "truthy (String s) = (s \<noteq> [])"
| "truthy (Array xs) = True"
| "truthy (Object kvs) = True"

text \<open>
  The property read \<open>v.k\<close> for the keys this program reads (\<open>files\<close>, \<open>path\<close>,
  \<open>content\<close>, \<open>agentDescription\<close>, ...): none of them is a property of a primitive, of an
  array or of a prototype, so only an object's own property can answer; everything else
  yields \<open>undefined\<close>. Reading a property of \<open>null\<close> or \<open>undefined\<close> throws in JavaScript;
  every caller below guards that case before it reads.
\<close>

fun field :: "string \<Rightarrow> jsval \<Rightarrow> jsval" where
  "field k (Object kvs) = (case map_of kvs k of Some v \<Rightarrow> v | None \<Rightarrow> Undefined)"
| "field k v = Undefined"

text \<open>\<open>typeof v === "string"\<close>, \<open>typeof v === "object"\<close> and \<open>Array.isArray(v)\<close>.\<close>

fun typeof_string :: "jsval \<Rightarrow> bool" where
  "typeof_string (String s) = True"
| "typeof_string v = False"

fun typeof_object :: "jsval \<Rightarrow> bool" where
  "typeof_object Null = True"
| "typeof_object (Array xs) = True"
| "typeof_object (Object kvs) = True"
| "typeof_object v = False"

fun isArray :: "jsval \<Rightarrow> bool" where
  "isArray (Array xs) = True"
| "isArray v = False"

fun elements :: "jsval \<Rightarrow> jsval list" where
  "elements (Array xs) = xs"
| "elements v = []"

section \<open>Errors\<close>

text \<open>
  Every exception the two source files can raise, by the place that raises it:
  \<^item> \<open>MissingFilesArray\<close>: \<open>Error("Model output missing or invalid 'files' array")\<close>
    in \<open>coerceServerShape\<close>;
  \<^item> \<open>EmptyModelOutput\<close>: \<open>Error("Empty model output")\<close>;
  \<^item> \<open>FailedToParseJSON\<close>: \<open>Error("Failed to parse JSON from model output")\<close>;
  \<^item> \<open>JSONSyntaxError\<close>: the \<open>SyntaxError\<close> of the second, unguarded \<open>JSON.parse\<close>;
  \<^item> \<open>ZodError\<close>: thrown by \<open>StructuredA2AServerOutputSchema.parse\<close>;
  \<^item> \<open>ServiceError\<close>: the rejection of \<open>responses.create\<close>;
  \<^item> \<open>TypeError\<close>: destructuring \<open>null\<close>, or iterating a value that is not iterable, in
    the route handler;
  \<^item> \<open>ArchiveError\<close>: whatever the archive library throws.
\<close>

datatype error =
    MissingFilesArray
  | EmptyModelOutput
  | FailedToParseJSON
  | JSONSyntaxError
  | ZodError
  | ServiceError
  | TypeError
  | ArchiveError

text \<open>The error kinds of the specification, and the kind each exception falls under.\<close>

datatype error_kind =
    InputError
  | ModelInvocationError
  | NormalizationError
  | SchemaError
  | PackagingError
  | Unclassified

fun kind_of :: "error \<Rightarrow> error_kind" where
  "kind_of MissingFilesArray = SchemaError"
| "kind_of ZodError = SchemaError"
| "kind_of EmptyModelOutput = ModelInvocationError"
| "kind_of ServiceError = ModelInvocationError"
| "kind_of FailedToParseJSON = NormalizationError"
| "kind_of JSONSyntaxError = NormalizationError"
| "kind_of TypeError = Unclassified"
| "kind_of ArchiveError = PackagingError"

section \<open>The two validators\<close>

subsection \<open>\<open>coerceServerShape\<close>\<close>

text \<open>
  The filter predicate \<open>f && typeof f.path === "string" && typeof f.content === "string"\<close>
  and the mapper \<open>({ path: f.path, content: f.content })\<close>.
\<close>

definition keep_file :: "jsval \<Rightarrow> bool" where
  "keep_file f \<longleftrightarrow>
     truthy f \<and> typeof_string (field ''path'' f) \<and> typeof_string (field ''content'' f)"

definition pick_file :: "jsval \<Rightarrow> jsval" where
  "pick_file f = Object [(''path'', field ''path'' f), (''content'', field ''content'' f)]"

definition coerceServerShape :: "jsval \<Rightarrow> error + jsval" where
  "coerceServerShape parsed =
     (if truthy parsed \<and> typeof_object parsed \<and> isArray (field ''files'' parsed)
      then (let files = map pick_file (filter keep_file (elements (field ''files'' parsed)))
            in if length files \<ge> 2 then Inr (Object [(''files'', Array files)])
               else Inl MissingFilesArray)
      else Inl MissingFilesArray)"

subsection \<open>\<open>StructuredA2AServerOutputSchema.parse\<close>\<close>

text \<open>
  The schema is
  \<^verbatim>\<open>z.object({ files: z.array(z.object({ path: z.string(), content: z.string() })).min(2) })\<close>.
  Its \<open>parse\<close> accepts a plain object only, checks every declared key, rejects the whole
  value when one array element fails its element schema or the array has fewer than two
  elements, and returns a fresh object that holds the declared keys only, in the order of
  the declaration (unknown keys are stripped, the default of \<open>z.object\<close>).
\<close>

fun is_plain_object :: "jsval \<Rightarrow> bool" where
  "is_plain_object (Object kvs) = True"
| "is_plain_object v = False"

definition file_schema_ok :: "jsval \<Rightarrow> bool" where
  "file_schema_ok f \<longleftrightarrow>
     is_plain_object f \<and> typeof_string (field ''path'' f) \<and> typeof_string (field ''content'' f)"

definition StructuredA2AServerOutputSchema_parse :: "jsval \<Rightarrow> error + jsval" where
  "StructuredA2AServerOutputSchema_parse v =
     (if is_plain_object v \<and> isArray (field ''files'' v)
         \<and> list_all file_schema_ok (elements (field ''files'' v))
         \<and> length (elements (field ''files'' v)) \<ge> 2
      then Inr (Object [(''files'', Array (map pick_file (elements (field ''files'' v))))])
      else Inl ZodError)"

section \<open>Text handling\<close>

text \<open>
  JavaScript's white space class \<open>\s\<close>, which is also what \<open>trim\<close> removes, among the
  code units below 256: tab, line feed, vertical tab, form feed, carriage return, space and
  the no-break space. The line terminators among them are line feed and carriage return.
\<close>

definition is_space :: "char \<Rightarrow> bool" where
  "is_space c \<longleftrightarrow>
     c = CHR 0x09 \<or> c = CHR 0x0A \<or> c = CHR 0x0B \<or> c = CHR 0x0C \<or> c = CHR 0x0D
     \<or> c = CHR 0x20 \<or> c = CHR 0xA0"

definition is_line_terminator :: "char \<Rightarrow> bool" where
  "is_line_terminator c \<longleftrightarrow> c = CHR 0x0A \<or> c = CHR 0x0D"

definition trim :: "string \<Rightarrow> string" where
  "trim s = rev (dropWhile is_space (rev (dropWhile is_space s)))"

text \<open>\<open>Array.prototype.join\<close> on strings.\<close>

fun join :: "string \<Rightarrow> string list \<Rightarrow> string" where
  "join sep [] = []"
| "join sep [x] = x"
| "join sep (x # y # ys) = x @ sep @ join sep (y # ys)"

subsection \<open>\<open>stripCodeFences\<close>\<close>

text \<open>
  \<^verbatim>\<open>s.replace(/^```(?:json)?\s*/i, "").replace(/```$/i, "").trim()\<close>

  The first pattern is anchored at the start of the text: three backquotes, then the
  letters \<open>json\<close> in either case when they follow, then all the white space that follows.
  The second is anchored at the end of the text (no \<open>m\<close> flag): its last three characters
  when they are backquotes.
\<close>

definition fence :: string where
  "fence = [CHR 0x60, CHR 0x60, CHR 0x60]"

fun json_tag :: "string \<Rightarrow> bool" where
  "json_tag (a # b # c # d # rest) \<longleftrightarrow>
     (a = CHR ''j'' \<or> a = CHR ''J'') \<and> (b = CHR ''s'' \<or> b = CHR ''S'')
     \<and> (c = CHR ''o'' \<or> c = CHR ''O'') \<and> (d = CHR ''n'' \<or> d = CHR ''N'')"
| "json_tag s \<longleftrightarrow> False"

definition strip_leading_fence :: "string \<Rightarrow> string" where
  "strip_leading_fence s =
     (if take 3 s = fence
      then (let r = drop 3 s in dropWhile is_space (if json_tag r then drop 4 r else r))
      else s)"

definition strip_trailing_fence :: "string \<Rightarrow> string" where
  "strip_trailing_fence s =
     (if 3 \<le> length s \<and> drop (length s - 3) s = fence then take (length s - 3) s else s)"

definition stripCodeFences :: "string \<Rightarrow> string" where
  "stripCodeFences s = trim (strip_trailing_fence (strip_leading_fence s))"

subsection \<open>The fallback pattern \<open>/\{[\s\S]*\}$/m\<close>\<close>

text \<open>
  \<open>raw.match\<close> tries the start positions from left to right. At an opening brace the
  greedy \<open>[\s\S]*\<close> takes the longest run of characters after which a closing brace stands
  at the end of a line (\<open>$\<close> under the \<open>m\<close> flag: the end of the text or the position before
  a line terminator). \<open>greedy_close rest\<close> is that longest continuation, \<open>match_block\<close> the
  matched text \<open>m[0]\<close>, \<open>None\<close> when \<open>match\<close> returns \<open>null\<close>.
\<close>

definition at_line_end :: "string \<Rightarrow> bool" where
  "at_line_end rest \<longleftrightarrow> (case rest of [] \<Rightarrow> True | c # cs \<Rightarrow> is_line_terminator c)"

fun greedy_close :: "string \<Rightarrow> string option" where
  "greedy_close [] = None"
| "greedy_close (c # cs) =
     (case greedy_close cs of
        Some p \<Rightarrow> Some (c # p)
      | None \<Rightarrow> if c = CHR ''}'' \<and> at_line_end cs then Some [c] else None)"

fun match_block :: "string \<Rightarrow> string option" where
  "match_block [] = None"
| "match_block (c # cs) =
     (if c = CHR ''{''
      then (case greedy_close cs of Some p \<Rightarrow> Some (c # p) | None \<Rightarrow> match_block cs)
      else match_block cs)"





section \<open>The generation pipeline\<close>

datatype reasoning_effort = Minimal | Medium | High

record params =
  agentDescription :: string
  services :: jsval
  model :: "string option"
  reasoningEffort :: "reasoning_effort option"

text \<open>
  What both calls of the model client carry: \<open>model\<close>, \<open>instructions\<close>, \<open>input\<close> and
  \<open>reasoning.effort\<close>. The structured call \<open>responses.parse\<close> carries the schema as
  \<open>response_format\<close> in addition.
\<close>

record request =
  req_model :: string
  req_instructions :: string
  req_input :: string
  req_effort :: reasoning_effort

datatype call = ParseCall request | CreateCall request

text \<open>An awaited promise either rejects (the \<open>await\<close> throws) or resolves with a value.\<close>

datatype 'a outcome = Rejected | Resolved 'a

text \<open>
  The response of \<open>responses.create\<close>, in the two shapes the code provides for: a direct
  \<open>output_text\<close>, or \<open>output\<close> items holding \<open>content\<close> fragments whose \<open>text\<close> is a string
  or an object with a string \<open>value\<close>. \<open>None\<close> stands for \<open>null\<close>/\<open>undefined\<close>, \<open>NoText\<close>
  for a fragment without usable text. The field \<open>output\<close> is named \<open>output_items\<close> here.
\<close>

datatype fragment = NoText | TextString string | TextValue string

record output_item =
  content :: "fragment list option"

record create_response =
  output_text :: "string option"
  output_items :: "output_item list option"

text \<open>
  What the module takes from outside: the prompt constant, the platform's \<open>JSON.parse\<close>
  (\<open>None\<close> when it throws) and \<open>JSON.stringify(_, null, 2)\<close>, and the model service behind
  the client. For \<open>responses.parse\<close> the resolved value is the \<open>parsed\<close> field of the
  response, \<open>Undefined\<close> when there is none.
\<close>

record env =
  systemPrompt :: string
  JSON_parse :: "string \<Rightarrow> jsval option"
  JSON_stringify :: "jsval \<Rightarrow> string"
  responses_parse :: "request \<Rightarrow> jsval outcome"
  responses_create :: "request \<Rightarrow> create_response outcome"

definition userPrompt :: "env \<Rightarrow> params \<Rightarrow> string" where
  \<open>userPrompt E p =
     join ''\<newline>\<newline>''
       [''Agent Description:\<newline>''
          @ (if agentDescription p = [] then ''(none provided)'' else agentDescription p),
        ''Services:\<newline>''
          @ JSON_stringify E
              (case services p of Undefined \<Rightarrow> Object [] | Null \<Rightarrow> Object [] | v \<Rightarrow> v),
        ''Output ONLY: {"files":[{"path":"...","content":"..."}]}'']\<close>

definition make_request :: "env \<Rightarrow> params \<Rightarrow> request" where
  "make_request E p =
     \<lparr> req_model = (case model p of None \<Rightarrow> ''gpt-5'' | Some m \<Rightarrow> if m = [] then ''gpt-5'' else m),
       req_instructions = systemPrompt E,
       req_input = userPrompt E p,
       req_effort = (case reasoningEffort p of None \<Rightarrow> Minimal | Some e \<Rightarrow> e) \<rparr>"

text \<open>
  The text of a free-text response:
  \<^verbatim>\<open>contents = resp?.output?.flatMap(o => o?.content ?? []) ?? []\<close>,
  \<^verbatim>\<open>text = resp?.output_text ?? contents.map(c => c?.text?.value ?? c?.text ?? "")
      .filter(Boolean).join("\n")\<close>.
\<close>

fun fragment_text :: "fragment \<Rightarrow> string" where
  "fragment_text NoText = []"
| "fragment_text (TextString s) = s"
| "fragment_text (TextValue s) = s"

definition response_contents :: "create_response \<Rightarrow> fragment list" where
  "response_contents resp =
     (case output_items resp of
        None \<Rightarrow> []
      | Some items \<Rightarrow> concat (map (\<lambda>item. case content item of None \<Rightarrow> [] | Some cs \<Rightarrow> cs) items))"

definition response_text :: "create_response \<Rightarrow> string" where
  "response_text resp =
     (case output_text resp of
        Some t \<Rightarrow> t
      | None \<Rightarrow>
          join ''\<newline>'' (filter (\<lambda>t. t \<noteq> []) (map fragment_text (response_contents resp))))"

text \<open>
  Lines 295 to 303: strip the fences, try \<open>JSON.parse\<close>, and in its \<open>catch\<close> look for the
  brace block and parse that, this time unguarded.
\<close>

definition normalize_output :: "env \<Rightarrow> string \<Rightarrow> error + jsval" where
  "normalize_output E text =
     (let raw = stripCodeFences text
      in case JSON_parse E raw of
           Some parsed \<Rightarrow> Inr parsed
         | None \<Rightarrow>
             (case match_block raw of
                None \<Rightarrow> Inl FailedToParseJSON
              | Some m \<Rightarrow>
                  (case JSON_parse E m of
                     None \<Rightarrow> Inl JSONSyntaxError
                   | Some parsed \<Rightarrow> Inr parsed)))"

text \<open>The \<open>catch\<close> block of \<open>generatePythonA2AServer\<close>: the free-text path.\<close>

definition free_text_path :: "env \<Rightarrow> request \<Rightarrow> error + jsval" where
  "free_text_path E req =
     (case responses_create E req of
        Rejected \<Rightarrow> Inl ServiceError
      | Resolved resp \<Rightarrow>
          (let text = response_text resp
           in if text = [] then Inl EmptyModelOutput
              else (case normalize_output E text of
                      Inl e \<Rightarrow> Inl e
                    | Inr parsed \<Rightarrow> StructuredA2AServerOutputSchema_parse parsed)))"

text \<open>
  \<open>generatePythonA2AServer\<close> returns its result together with the calls it made to the
  model service, in order. The \<open>try\<close> block returns \<open>resp.parsed\<close> as it is when it is
  truthy; a rejection, or a \<open>parsed\<close> that is not truthy, lands in the \<open>catch\<close> block.
\<close>

definition generatePythonA2AServer :: "env \<Rightarrow> params \<Rightarrow> (error + jsval) \<times> call list" where
  "generatePythonA2AServer E p =
     (let req = make_request E p
      in case responses_parse E req of
           Resolved parsed \<Rightarrow>
             if truthy parsed then (Inr parsed, [ParseCall req])
             else (free_text_path E req, [ParseCall req, CreateCall req])
         | Rejected \<Rightarrow> (free_text_path E req, [ParseCall req, CreateCall req]))"

section \<open>The route handler\<close>

text \<open>
  \<open>POST\<close> destructures four properties from the request body and hands them to the
  generator unchecked. The generator is the function imported from the generation module
  and the archive is built by the JSZip library; both are parameters here. The handler
  returns its outcome together with the generator invocations it made.
\<close>

record gen_args =
  arg_agentDescription :: jsval
  arg_services :: jsval
  arg_model :: jsval
  arg_reasoningEffort :: jsval

text \<open>
  \<open>body_json\<close> is what \<open>req.json()\<close> resolves to, \<open>None\<close> when it rejects; \<open>zip_param\<close> is
  \<open>req.nextUrl.searchParams.get("zip")\<close>, \<open>None\<close> for \<open>null\<close>.
\<close>

record http_request =
  body_json :: "jsval option"
  zip_param :: "string option"

datatype body = TextBody string | JsonBody jsval | BinaryBody "8 word list"

record response =
  status :: nat
  headers :: "(string \<times> string) list"
  payload :: body

datatype http_outcome = Responds response | Throws error

text \<open>\<open>String(n)\<close> for a byte length: its decimal digits.\<close>

definition digit_char :: "nat \<Rightarrow> char" where
  "digit_char d = char_of (of_char CHR ''0'' + d)"

function String_of_nat :: "nat \<Rightarrow> string" where
  "String_of_nat n =
     (if n < 10 then [digit_char n] else String_of_nat (n div 10) @ [digit_char (n mod 10)])"
  by pat_completeness auto
termination
  by (relation "measure id") auto

text \<open>
  \<^verbatim>\<open>for (const f of result.files) zip.file(f.path, f.content)\<close>: the arguments of the
  successive \<open>zip.file\<close> calls. A \<open>result\<close> or an element that is \<open>null\<close> or \<open>undefined\<close>
  makes the property read throw; a \<open>files\<close> that is a string iterates over its characters,
  whose \<open>path\<close> and \<open>content\<close> are undefined; any other value that is not an array is not
  iterable.
\<close>

fun is_nullish :: "jsval \<Rightarrow> bool" where
  "is_nullish Undefined = True"
| "is_nullish Null = True"
| "is_nullish v = False"

fun zip_file_calls :: "jsval list \<Rightarrow> error + (jsval \<times> jsval) list" where
  "zip_file_calls [] = Inr []"
| "zip_file_calls (f # fs) =
     (if is_nullish f then Inl TypeError
      else (case zip_file_calls fs of
              Inl e \<Rightarrow> Inl e
            | Inr es \<Rightarrow> Inr ((field ''path'' f, field ''content'' f) # es)))"

definition zip_entries :: "jsval \<Rightarrow> error + (jsval \<times> jsval) list" where
  "zip_entries result =
     (if is_nullish result then Inl TypeError
      else (case field ''files'' result of
              Array fs \<Rightarrow> zip_file_calls fs
            | String s \<Rightarrow> Inr (map (\<lambda>c. (Undefined, Undefined)) s)
            | v \<Rightarrow> Inl TypeError))"

definition zip_headers :: "8 word list \<Rightarrow> (string \<times> string) list" where
  \<open>zip_headers bytes =
     [(''Content-Type'', ''application/zip''),
      (''Content-Disposition'', ''attachment; filename="a2a-python-server.zip"''),
      (''Content-Length'', String_of_nat (length bytes)),
      (''Cache-Control'', ''no-store''),
      (''Accept-Ranges'', ''bytes'')]\<close>

definition POST ::
  "(gen_args \<Rightarrow> error + jsval) \<Rightarrow> ((jsval \<times> jsval) list \<Rightarrow> error + 8 word list)
     \<Rightarrow> http_request \<Rightarrow> http_outcome \<times> gen_args list" where
  "POST generate generateAsync req =
     (let b = (case body_json req of None \<Rightarrow> Object [] | Some v \<Rightarrow> v)
      in if is_nullish b then (Throws TypeError, [])
         else
           (let args = \<lparr> arg_agentDescription = field ''agentDescription'' b,
                         arg_services = field ''services'' b,
                         arg_model = field ''model'' b,
                         arg_reasoningEffort = field ''reasoningEffort'' b \<rparr>
            in if \<not> truthy (arg_agentDescription args)
               then (Responds \<lparr> status = 400, headers = [],
                                payload = TextBody ''agentDescription required'' \<rparr>, [])
               else
                 (case generate args of
                    Inl e \<Rightarrow> (Throws e, [args])
                  | Inr result \<Rightarrow>
                      if zip_param req = None \<or> zip_param req = Some []
                      then (Responds \<lparr> status = 200, headers = [], payload = JsonBody result \<rparr>,
                            [args])
                      else
                        (case zip_entries result of
                           Inl e \<Rightarrow> (Throws e, [args])
                         | Inr es \<Rightarrow>
                             (case generateAsync es of
                                Inl e \<Rightarrow> (Throws e, [args])
                              | Inr bytes \<Rightarrow>
                                  (Responds \<lparr> status = 200, headers = zip_headers bytes,
                                               payload = BinaryBody bytes \<rparr>, [args]))))))"

section \<open>Notions used to state the properties\<close>

text \<open>\<open>Object.keys(v)\<close>: the names of the own properties, in order.\<close>

definition own_keys :: "jsval \<Rightarrow> string list" where
  "own_keys v = (case v of Object kvs \<Rightarrow> map fst kvs | _ \<Rightarrow> [])"

text \<open>
  A GeneratedFile: an object with the two properties \<open>path\<close> and \<open>content\<close>, both strings,
  and nothing else. A GenerationResult: an object whose only property \<open>files\<close> is an array
  of at least two GeneratedFiles.
\<close>

definition is_generated_file :: "jsval \<Rightarrow> bool" where
  "is_generated_file f \<longleftrightarrow>
     is_plain_object f \<and> distinct (own_keys f) \<and> set (own_keys f) = {''path'', ''content''}
     \<and> typeof_string (field ''path'' f) \<and> typeof_string (field ''content'' f)"

definition is_generation_result :: "jsval \<Rightarrow> bool" where
  "is_generation_result r \<longleftrightarrow>
     is_plain_object r \<and> own_keys r = [''files''] \<and> isArray (field ''files'' r)
     \<and> 2 \<le> length (elements (field ''files'' r))
     \<and> list_all is_generated_file (elements (field ''files'' r))"

text \<open>
  Two objects with the same property names and the same value under each name; the order
  in which they list their properties is left aside.
\<close>

definition same_properties :: "jsval \<Rightarrow> jsval \<Rightarrow> bool" where
  "same_properties a b \<longleftrightarrow>
     is_plain_object a \<and> is_plain_object b \<and> set (own_keys a) = set (own_keys b)
     \<and> (\<forall>k \<in> set (own_keys a). field k a = field k b)"

text \<open>
  The text of a JSON object, compact or pretty-printed: it starts with an opening brace and
  ends with a closing one. A fence tag is empty or the word \<open>json\<close> in either case.
\<close>

definition is_object_text :: "string \<Rightarrow> bool" where
  "is_object_text t \<longleftrightarrow> t \<noteq> [] \<and> hd t = CHR ''{'' \<and> last t = CHR ''}''"

definition is_fence_tag :: "string \<Rightarrow> bool" where
  "is_fence_tag tag \<longleftrightarrow> tag = [] \<or> (length tag = 4 \<and> json_tag tag)"


text \<open>The structured path did not deliver: the call rejected, or \<open>resp.parsed\<close> is not truthy.\<close>

definition structured_failed :: "env \<Rightarrow> request \<Rightarrow> bool" where
  "structured_failed E req \<longleftrightarrow>
     (case responses_parse E req of Rejected \<Rightarrow> True | Resolved parsed \<Rightarrow> \<not> truthy parsed)"

section \<open>Example data\<close>

text \<open>
  Model outputs used in the examples below, with the value \<open>JSON.parse\<close> gives for each.
\<close>

definition two_files_text :: string where
  \<open>two_files_text =
     ''{"files":[{"path":"a.txt","content":"hello"},{"path":"b.txt","content":""}]}''\<close>

definition two_files_value :: jsval where
  "two_files_value =
     Object [(''files'', Array
       [Object [(''path'', String ''a.txt''), (''content'', String ''hello'')],
        Object [(''path'', String ''b.txt''), (''content'', String [])]])]"

definition two_lines_text :: string where
  \<open>two_lines_text =
     ''{"files":[{"path":"a.txt","content":"hello"},\<newline>{"path":"b.txt","content":""}]}''\<close>

definition mixed_files_text :: string where
  \<open>mixed_files_text =
     ''{"files":[{"path":"a.txt","content":"hello"},{"path":"b.txt","content":""},{"path":"c.txt"}]}''\<close>

definition mixed_files_value :: jsval where
  "mixed_files_value =
     Object [(''files'', Array
       [Object [(''path'', String ''a.txt''), (''content'', String ''hello'')],
        Object [(''path'', String ''b.txt''), (''content'', String [])],
        Object [(''path'', String ''c.txt'')]])]"

definition flat_text :: string where
  \<open>flat_text = ''{"files":"x","name":"y"}''\<close>

definition flat_pretty_text :: string where
  \<open>flat_pretty_text = ''{\<newline>  "files": "x",\<newline>  "name": "y"\<newline>}''\<close>

definition flat_value :: jsval where
  "flat_value = Object [(''files'', String ''x''), (''name'', String ''y'')]"

definition empty_array_text :: string where
  \<open>empty_array_text = ''[]''\<close>

text \<open>
  \<open>JSON.parse\<close> on the texts above, the last of which is JSON without a brace. On any
  other text this table answers \<open>None\<close>; the
  examples apply it, besides the texts above, only to texts that are not JSON (an object
  followed by prose, plain prose).
\<close>

definition JSON_parse_sample :: "string \<Rightarrow> jsval option" where
  "JSON_parse_sample s =
     (if s = two_files_text \<or> s = two_lines_text then Some two_files_value
      else if s = mixed_files_text then Some mixed_files_value
      else if s = flat_text \<or> s = flat_pretty_text then Some flat_value
      else if s = empty_array_text then Some (Array [])
      else None)"

text \<open>
  An environment whose model service gives the same two answers whatever the request. Its
  prompt constant is a stand-in, and its \<open>JSON.stringify\<close> is right for the empty services
  object, the only value the examples pass.
\<close>

definition sample_env :: "jsval outcome \<Rightarrow> create_response outcome \<Rightarrow> env" where
  "sample_env structured free =
     \<lparr> systemPrompt = ''You are an expert Python engineer'',
       JSON_parse = JSON_parse_sample,
       JSON_stringify = (\<lambda>v. ''{}''),
       responses_parse = (\<lambda>req. structured),
       responses_create = (\<lambda>req. free) \<rparr>"

definition sample_params :: params where
  "sample_params =
     \<lparr> agentDescription = ''Echo agent that repeats user text.'',
       services = Undefined, model = None, reasoningEffort = None \<rparr>"

definition text_response :: "string \<Rightarrow> create_response" where
  "text_response t = \<lparr> output_text = Some t, output_items = None \<rparr>"

text \<open>A single well-formed file entry, and a parsed value whose entries carry more fields.\<close>

definition one_file :: jsval where
  "one_file = Object [(''path'', String ''a.txt''), (''content'', String ''hello'')]"

definition extra_fields_value :: jsval where
  "extra_fields_value =
     Object [(''note'', String ''done''), (''files'', Array
       [Object [(''path'', String ''a.txt''), (''mode'', Number 420), (''content'', String ''hello'')],
        Object [(''content'', String []), (''path'', String ''b.txt''), (''executable'', Bool False)]])]"

text \<open>A free-text response that carries its text in content fragments.\<close>

definition fragments_response :: create_response where
  \<open>fragments_response =
     \<lparr> output_text = None,
       output_items = Some
         [\<lparr> content = Some [TextString ''{"files":[{"path":"a.txt","content":"hello"},'', NoText] \<rparr>,
          \<lparr> content = None \<rparr>,
          \<lparr> content = Some [TextValue ''{"path":"b.txt","content":""}]}''] \<rparr>] \<rparr>\<close>




text \<open>The number a string of decimal digits denotes, to read a \<open>Content-Length\<close> back.\<close>

definition decimal_value :: "string \<Rightarrow> nat" where
  "decimal_value s = foldl (\<lambda>acc c. 10 * acc + (of_char c - of_char CHR ''0'')) 0 s"

section \<open>Lemmas on the validators\<close>

lemma keep_file_iff: "keep_file f \<longleftrightarrow> file_schema_ok f"
  by (cases f) (simp_all add: keep_file_def file_schema_ok_def)

lemma filter_keep_file: "filter keep_file fs = filter file_schema_ok fs"
  by (rule filter_cong) (simp_all add: keep_file_iff)

lemma filter_keep_all: "list_all file_schema_ok fs \<Longrightarrow> filter keep_file fs = fs"
  by (induction fs) (simp_all add: keep_file_iff)

lemma coerce_object:
  assumes "is_plain_object v" and "field ''files'' v = Array fs"
  shows "coerceServerShape v =
     (if 2 \<le> length (filter keep_file fs)
      then Inr (Object [(''files'', Array (map pick_file (filter keep_file fs)))])
      else Inl MissingFilesArray)"
  using assms by (cases v) (simp_all add: coerceServerShape_def Let_def)

lemma schema_object:
  assumes "is_plain_object v" and "field ''files'' v = Array fs"
  shows "StructuredA2AServerOutputSchema_parse v =
     (if list_all file_schema_ok fs \<and> 2 \<le> length fs
      then Inr (Object [(''files'', Array (map pick_file fs))])
      else Inl ZodError)"
  using assms by (simp add: StructuredA2AServerOutputSchema_parse_def)

lemma pick_file_keys: "own_keys (pick_file f) = [''path'', ''content'']"
  by (simp add: pick_file_def own_keys_def)

lemma pick_file_fields:
  "field ''path'' (pick_file f) = field ''path'' f"
  "field ''content'' (pick_file f) = field ''content'' f"
  by (simp_all add: pick_file_def)

lemma pick_file_plain: "is_plain_object (pick_file f)"
  by (simp add: pick_file_def)

lemma pick_file_generated: "file_schema_ok f \<Longrightarrow> is_generated_file (pick_file f)"
  by (simp add: is_generated_file_def pick_file_keys pick_file_fields file_schema_ok_def)
     (simp add: pick_file_def)

lemma generated_file_ok: "is_generated_file f \<Longrightarrow> file_schema_ok f"
  by (simp add: is_generated_file_def file_schema_ok_def)

lemma pick_file_same_properties:
  assumes "is_generated_file f"
  shows "same_properties (pick_file f) f"
proof -
  from assms have p: "is_plain_object f" and k: "set (own_keys f) = {''path'', ''content''}"
    by (simp_all only: is_generated_file_def)
  have k': "set (own_keys (pick_file f)) = {''path'', ''content''}"
    by (simp only: pick_file_keys list.set)
  have "\<forall>k \<in> {''path'', ''content''}. field k (pick_file f) = field k f"
    by (simp only: ball_simps pick_file_fields simp_thms)
  with p k k' pick_file_plain show ?thesis
    by (simp only: same_properties_def simp_thms)
qed

lemma pick_file_id:
  assumes "is_generated_file f" and "own_keys f = [''path'', ''content'']"
  shows "pick_file f = f"
proof -
  from assms(1) obtain kvs where f: "f = Object kvs"
    by (cases f) (simp_all add: is_generated_file_def)
  with assms(2) obtain a b where kvs: "kvs = [(''path'', a), (''content'', b)]"
    by (auto simp: own_keys_def map_eq_Cons_conv)
  show ?thesis by (simp add: f kvs pick_file_def)
qed

lemma schema_parse_result:
  assumes "StructuredA2AServerOutputSchema_parse v = Inr r"
  shows "r = Object [(''files'', Array (map pick_file (elements (field ''files'' v))))]"
    and "list_all file_schema_ok (elements (field ''files'' v))"
    and "2 \<le> length (elements (field ''files'' v))"
  using assms by (auto simp: StructuredA2AServerOutputSchema_parse_def split: if_splits)

lemma coerce_result:
  assumes "coerceServerShape v = Inr r"
  shows "r = Object [(''files'', Array (map pick_file (filter keep_file (elements (field ''files'' v)))))]"
    and "2 \<le> length (filter keep_file (elements (field ''files'' v)))"
  using assms by (auto simp: coerceServerShape_def Let_def split: if_splits)

lemma generation_result_picked:
  assumes "list_all file_schema_ok fs" and "2 \<le> length fs"
  shows "is_generation_result (Object [(''files'', Array (map pick_file fs))])"
  using assms
  by (simp add: is_generation_result_def own_keys_def list_all_iff pick_file_generated)

lemma schema_parse_generation_result:
  "StructuredA2AServerOutputSchema_parse v = Inr r \<Longrightarrow> is_generation_result r"
  using schema_parse_result [of v r] generation_result_picked by simp


section \<open>Lemmas on fence stripping\<close>

lemma not_space_brace [simp]: "\<not> is_space CHR ''{''" "\<not> is_space CHR ''}''"
  by (simp_all add: is_space_def)

lemma trim_id: "s \<noteq> [] \<Longrightarrow> \<not> is_space (hd s) \<Longrightarrow> \<not> is_space (last s) \<Longrightarrow> trim s = s"
proof -
  assume a: "s \<noteq> []" "\<not> is_space (hd s)" "\<not> is_space (last s)"
  then have 1: "dropWhile is_space s = s" by (cases s) simp_all
  from a have "rev s \<noteq> []" "\<not> is_space (hd (rev s))" by (simp_all add: hd_rev)
  then have 2: "dropWhile is_space (rev s) = rev s" by (cases "rev s") simp_all
  show ?thesis by (simp add: trim_def 1 2)
qed

lemma strip_trailing_fence_append: "strip_trailing_fence (s @ fence) = s"
  by (simp add: strip_trailing_fence_def fence_def)

lemma strip_trailing_fence_id:
  assumes "s \<noteq> []" "last s \<noteq> CHR 0x60"
  shows "strip_trailing_fence s = s"
proof -
  have "drop (length s - 3) s \<noteq> fence"
  proof
    assume f: "drop (length s - 3) s = fence"
    have "s = take (length s - 3) s @ drop (length s - 3) s" by simp
    then have "s = take (length s - 3) s @ fence" using f by simp
    then have "last s = last (take (length s - 3) s @ fence)" by simp
    then have "last s = CHR 0x60" by (simp add: fence_def)
    with assms show False by simp
  qed
  then show ?thesis by (simp add: strip_trailing_fence_def)
qed

lemma strip_leading_fence_id:
  assumes "s \<noteq> []" "hd s \<noteq> CHR 0x60"
  shows "strip_leading_fence s = s"
  using assms by (cases s) (auto simp: strip_leading_fence_def fence_def)


lemma stripCodeFences_object_text: "is_object_text t \<Longrightarrow> stripCodeFences t = t"
  by (simp add: is_object_text_def stripCodeFences_def strip_leading_fence_id
      strip_trailing_fence_id trim_id)

lemma json_tag_append: "length tag = 4 \<Longrightarrow> json_tag (tag @ r) = json_tag tag"
  by (cases tag rule: json_tag.cases) auto

lemma dropWhile_all_then:
  "list_all P xs \<Longrightarrow> ys \<noteq> [] \<Longrightarrow> \<not> P (hd ys) \<Longrightarrow> dropWhile P (xs @ ys) = ys"
  by (induction xs) (auto simp: neq_Nil_conv)

lemma dropWhile_space_object:
  "list_all is_space ws \<Longrightarrow> is_object_text t \<Longrightarrow> dropWhile is_space (ws @ t @ r) = t @ r"
  using dropWhile_all_then [of is_space ws "t @ r"] by (simp add: is_object_text_def)

lemma json_tag_hd: "json_tag s \<Longrightarrow> s \<noteq> [] \<and> (hd s = CHR ''j'' \<or> hd s = CHR ''J'')"
  by (cases s rule: json_tag.cases) auto

lemma not_json_tag_ws_object:
  assumes "list_all is_space ws" "is_object_text t"
  shows "\<not> json_tag (ws @ t @ r)"
proof
  assume "json_tag (ws @ t @ r)"
  then have h: "hd (ws @ t @ r) = CHR ''j'' \<or> hd (ws @ t @ r) = CHR ''J''"
    by (simp add: json_tag_hd)
  show False
  proof (cases ws)
    case Nil
    with h assms show False by (auto simp: is_object_text_def)
  next
    case (Cons c cs)
    with h assms show False by (auto simp: is_space_def)
  qed
qed

lemma strip_leading_fence_wrapped:
  assumes "is_fence_tag tag" "list_all is_space ws" "is_object_text t"
  shows "strip_leading_fence (fence @ tag @ ws @ t @ r) = t @ r"
proof (cases "tag = []")
  case True
  then show ?thesis
    using assms by (simp add: strip_leading_fence_def fence_def not_json_tag_ws_object
        dropWhile_space_object)
next
  case False
  with assms have l: "length tag = 4" and j: "json_tag tag" by (simp_all add: is_fence_tag_def)
  then show ?thesis
    using assms by (simp add: strip_leading_fence_def fence_def json_tag_append
        dropWhile_space_object)
qed

lemma trim_object_ws:
  assumes "is_object_text t" "list_all is_space ws"
  shows "trim (t @ ws) = t"
proof -
  from assms have 1: "dropWhile is_space (t @ ws) = t @ ws"
    by (cases t) (simp_all add: is_object_text_def)
  have 2: "dropWhile is_space (rev ws @ rev t) = rev t"
  proof -
    have "list_all is_space (rev ws)" using assms by (simp add: list_all_iff)
    moreover have "rev t \<noteq> []" "\<not> is_space (hd (rev t))"
      using assms by (simp_all add: is_object_text_def hd_rev)
    ultimately show ?thesis
      by (rule dropWhile_all_then)
  qed
  show ?thesis by (simp add: trim_def 1 2)
qed

lemma stripCodeFences_wrapped:
  assumes "is_fence_tag tag" "list_all is_space ws1" "list_all is_space ws2" "is_object_text t"
  shows "stripCodeFences (fence @ tag @ ws1 @ t @ ws2 @ fence) = t"
proof -
  have "strip_leading_fence (fence @ tag @ ws1 @ t @ ws2 @ fence) = t @ ws2 @ fence"
    using assms by (simp add: strip_leading_fence_wrapped)
  moreover have "strip_trailing_fence (t @ ws2 @ fence) = t @ ws2"
    using strip_trailing_fence_append [of "t @ ws2"] by simp
  ultimately show ?thesis
    using assms by (simp add: stripCodeFences_def trim_object_ws)
qed






section \<open>Lemmas on the brace block\<close>
















section \<open>Lemmas on the pipeline\<close>

lemma normalize_output_direct:
  "JSON_parse E (stripCodeFences text) = Some v \<Longrightarrow> normalize_output E text = Inr v"
  by (simp add: normalize_output_def)


lemma normalize_output_kind:
  "normalize_output E text = Inl e \<Longrightarrow> kind_of e = NormalizationError"
  by (auto simp: normalize_output_def Let_def split: option.splits)

lemma generate_structured:
  assumes "responses_parse E (make_request E p) = Resolved parsed" and "truthy parsed"
  shows "generatePythonA2AServer E p = (Inr parsed, [ParseCall (make_request E p)])"
  using assms by (simp add: generatePythonA2AServer_def)

lemma generate_fallback:
  assumes "structured_failed E (make_request E p)"
  shows "generatePythonA2AServer E p
     = (free_text_path E (make_request E p),
        [ParseCall (make_request E p), CreateCall (make_request E p)])"
  using assms
  by (auto simp: generatePythonA2AServer_def structured_failed_def Let_def split: outcome.splits)

lemma free_text_path_cases:
  "(\<exists>r. free_text_path E req = Inr r \<and> is_generation_result r)
   \<or> (\<exists>e. free_text_path E req = Inl e
         \<and> kind_of e \<in> {ModelInvocationError, NormalizationError, SchemaError})"
proof (cases "responses_create E req")
  case Rejected
  then show ?thesis by (simp add: free_text_path_def)
next
  case (Resolved resp)
  show ?thesis
  proof (cases "response_text resp = []")
    case True
    with Resolved show ?thesis by (simp add: free_text_path_def)
  next
    case False
    show ?thesis
    proof (cases "normalize_output E (response_text resp)")
      case (Inl e)
      with Resolved False show ?thesis
        by (simp add: free_text_path_def normalize_output_kind)
    next
      case (Inr parsed)
      show ?thesis
      proof (cases "StructuredA2AServerOutputSchema_parse parsed")
        case (Inl e)
        then have "e = ZodError"
          by (simp add: StructuredA2AServerOutputSchema_parse_def split: if_splits)
        with Inl Inr Resolved False show ?thesis by (simp add: free_text_path_def)
      next
        case (Inr r)
        with \<open>normalize_output E (response_text resp) = Inr parsed\<close> Resolved False
        show ?thesis by (simp add: free_text_path_def schema_parse_generation_result)
      qed
    qed
  qed
qed


section \<open>Lemmas on the route handler\<close>

lemma POST_rejects_missing_description:
  assumes "\<not> is_nullish (case body_json req of None \<Rightarrow> Object [] | Some v \<Rightarrow> v)"
    and "\<not> truthy (field ''agentDescription'' (case body_json req of None \<Rightarrow> Object [] | Some v \<Rightarrow> v))"
  shows "POST generate generateAsync req
     = (Responds \<lparr> status = 400, headers = [], payload = TextBody ''agentDescription required'' \<rparr>, [])"
  using assms by (simp add: POST_def Let_def)

lemma POST_no_generation_without_description:
  assumes "\<not> truthy (field ''agentDescription'' (case body_json req of None \<Rightarrow> Object [] | Some v \<Rightarrow> v))"
  shows "snd (POST generate generateAsync req) = []"
  using assms by (simp add: POST_def Let_def)

lemma decimal_value_snoc:
  "decimal_value (s @ [c]) = 10 * decimal_value s + (of_char c - of_char CHR ''0'')"
  by (simp add: decimal_value_def)

lemma digit_char_value: "d < 10 \<Longrightarrow> of_char (digit_char d) - (48::nat) = d"
  by (simp add: digit_char_def)

lemma decimal_value_String_of_nat: "decimal_value (String_of_nat n) = n"
proof (induction n rule: String_of_nat.induct)
  case (1 n)
  show ?case
  proof (cases "n < 10")
    case True
    then show ?thesis
      using decimal_value_snoc [of "[]" "digit_char n"]
      by (simp add: digit_char_value decimal_value_def)
  next
    case False
    with 1 have "decimal_value (String_of_nat (n div 10)) = n div 10" by simp
    with False show ?thesis
      by (subst String_of_nat.simps) (simp add: decimal_value_snoc digit_char_value)
  qed
qed

lemma zip_file_calls_objects:
  "list_all is_plain_object fs \<Longrightarrow>
   zip_file_calls fs = Inr (map (\<lambda>f. (field ''path'' f, field ''content'' f)) fs)"
proof (induction fs)
  case Nil
  show ?case by simp
next
  case (Cons f fs)
  then have "\<not> is_nullish f" by (cases f) simp_all
  with Cons show ?case by simp
qed

lemma zip_entries_generation_result:
  assumes "is_generation_result r"
  shows "zip_entries r
     = Inr (map (\<lambda>f. (field ''path'' f, field ''content'' f)) (elements (field ''files'' r)))"
proof -
  from assms obtain fs where fs: "field ''files'' r = Array fs"
    by (cases "field ''files'' r") (simp_all add: is_generation_result_def)
  from assms have "\<not> is_nullish r" by (cases r) (simp_all add: is_generation_result_def)
  moreover from assms fs have "list_all is_plain_object fs"
    by (simp add: is_generation_result_def is_generated_file_def list_all_iff)
  ultimately show ?thesis by (simp add: zip_entries_def fs zip_file_calls_objects)
qed

text \<open>
  The archive branch. For a GenerationResult the handler hands the archive library one pair
  of \<open>path\<close> and \<open>content\<close> per file, in the order of the files, answers with the buffer
  the library generates, and declares the decimal length of that buffer. What the library
  makes of the pairs (its entries, their bytes) is decided outside the two source files.
\<close>

lemma POST_zip_response:
  assumes "body_json req = Some b" and "\<not> is_nullish b"
    and "truthy (field ''agentDescription'' b)"
    and "generate \<lparr> arg_agentDescription = field ''agentDescription'' b,
                     arg_services = field ''services'' b,
                     arg_model = field ''model'' b,
                     arg_reasoningEffort = field ''reasoningEffort'' b \<rparr> = Inr r"
    and "is_generation_result r"
    and "zip_param req = Some z" and "z \<noteq> []"
    and "generateAsync (map (\<lambda>f. (field ''path'' f, field ''content'' f))
           (elements (field ''files'' r))) = Inr bytes"
  shows "fst (POST generate generateAsync req)
     = Responds \<lparr> status = 200, headers = zip_headers bytes, payload = BinaryBody bytes \<rparr>"
    and "map_of (zip_headers bytes) ''Content-Length'' = Some (String_of_nat (length bytes))"
    and "decimal_value (String_of_nat (length bytes)) = length bytes"
proof -
  have e: "zip_entries r
     = Inr (map (\<lambda>f. (field ''path'' f, field ''content'' f)) (elements (field ''files'' r)))"
    using assms(5) by (rule zip_entries_generation_result)
  show "fst (POST generate generateAsync req)
     = Responds \<lparr> status = 200, headers = zip_headers bytes, payload = BinaryBody bytes \<rparr>"
    by (simp add: POST_def Let_def assms(1,2,3,4,6,7,8) e)
  show "map_of (zip_headers bytes) ''Content-Length'' = Some (String_of_nat (length bytes))"
    by (simp add: zip_headers_def)
  show "decimal_value (String_of_nat (length bytes)) = length bytes"
    by (rule decimal_value_String_of_nat)
qed

section \<open>Lemmas on the example data\<close>

lemma stripCodeFences_samples:
  "stripCodeFences two_files_text = two_files_text"
  "stripCodeFences mixed_files_text = mixed_files_text"
  "stripCodeFences two_lines_text = two_lines_text"
  by (rule stripCodeFences_object_text, simp add: is_object_text_def two_files_text_def
      mixed_files_text_def two_lines_text_def)+

lemma JSON_parse_samples:
  "JSON_parse_sample two_files_text = Some two_files_value"
  "JSON_parse_sample mixed_files_text = Some mixed_files_value"
  "JSON_parse_sample two_lines_text = Some two_files_value"
  by (simp_all add: JSON_parse_sample_def two_files_text_def mixed_files_text_def two_lines_text_def)

lemma sample_env_simps:
  "JSON_parse (sample_env a b) = JSON_parse_sample"
  "responses_parse (sample_env a b) req = a"
  "responses_create (sample_env a b) req = b"
  by (simp_all add: sample_env_def)

lemma text_nonempty:
  "two_files_text \<noteq> []" "mixed_files_text \<noteq> []"
  by (simp_all add: two_files_text_def mixed_files_text_def)

lemma schema_samples:
  "StructuredA2AServerOutputSchema_parse two_files_value = Inr two_files_value"
  "StructuredA2AServerOutputSchema_parse mixed_files_value = Inl ZodError"
  "coerceServerShape mixed_files_value = Inr two_files_value"
  by (simp_all add: StructuredA2AServerOutputSchema_parse_def coerceServerShape_def
      two_files_value_def mixed_files_value_def file_schema_ok_def keep_file_def pick_file_def)

lemma response_text_fragments: "response_text fragments_response = two_lines_text"
  by (simp add: response_text_def response_contents_def fragments_response_def two_lines_text_def)




section \<open>Properties\<close>

text \<open>
  \<^bold>\<open>Claim C1\<close> (schema validation filtering). The claim: from a files array that mixes
  well-formed and malformed entries, validation keeps exactly the well-formed ones, in
  order, and does not fail on a malformed one.

  \<open>coerceServerShape\<close> does that (lemma \<open>coerce_object\<close>), yet nothing calls it: the
  pipeline validates with \<open>StructuredA2AServerOutputSchema.parse\<close>, which rejects the
  whole value as soon as one entry is malformed (lemma \<open>schema_object\<close>). The theorem runs
  the pipeline on a free-text output of two well-formed entries and one without \<open>content\<close>:
  the pipeline fails with the schema's error, where \<open>coerceServerShape\<close> returns the two
  well-formed files for the same parsed value.
\<close>

theorem pipeline_rejects_mixed_files:
  "fst (generatePythonA2AServer
          (sample_env Rejected (Resolved (text_response mixed_files_text))) sample_params)
     = Inl ZodError
   \<and> coerceServerShape mixed_files_value = Inr two_files_value"
  by (simp add: generatePythonA2AServer_def Let_def free_text_path_def normalize_output_def
      response_text_def text_response_def sample_env_simps stripCodeFences_samples
      JSON_parse_samples schema_samples text_nonempty)

text \<open>
  What the pipeline returns, by path: the truthy \<open>parsed\<close> of the structured call as it
  is, or else the outcome of the free-text path, which is a GenerationResult or a
  model-invocation, normalization or schema error.
\<close>

lemma pipeline_result_cases:
  "(case fst (generatePythonA2AServer E p) of
      Inr r \<Rightarrow>
        (responses_parse E (make_request E p) = Resolved r \<and> truthy r)
        \<or> (structured_failed E (make_request E p) \<and> is_generation_result r)
    | Inl e \<Rightarrow>
        structured_failed E (make_request E p)
        \<and> kind_of e \<in> {ModelInvocationError, NormalizationError, SchemaError})"
proof (cases "structured_failed E (make_request E p)")
  case True
  with free_text_path_cases [of E "make_request E p"] show ?thesis
    by (auto simp: generate_fallback)
next
  case False
  then obtain parsed where "responses_parse E (make_request E p) = Resolved parsed" "truthy parsed"
    by (auto simp: structured_failed_def split: outcome.splits)
  then show ?thesis by (simp add: generate_structured)
qed

lemma pipeline_result_cases_example:
  "fst (generatePythonA2AServer
          (sample_env Rejected (Resolved (text_response two_files_text))) sample_params)
     = Inr two_files_value
   \<and> structured_failed (sample_env Rejected (Resolved (text_response two_files_text)))
        (make_request (sample_env Rejected (Resolved (text_response two_files_text))) sample_params)
   \<and> is_generation_result two_files_value"
proof -
  let ?E = "sample_env Rejected (Resolved (text_response two_files_text))"
  have f: "structured_failed ?E (make_request ?E sample_params)"
    by (simp add: structured_failed_def sample_env_simps)
  have g: "fst (generatePythonA2AServer ?E sample_params) = Inr two_files_value"
    by (simp add: generatePythonA2AServer_def Let_def free_text_path_def normalize_output_def
      response_text_def text_response_def sample_env_simps stripCodeFences_samples
      JSON_parse_samples schema_samples text_nonempty)
  from pipeline_result_cases [of ?E sample_params] f g show ?thesis
    by (simp add: sample_env_simps)
qed

text \<open>
  \<^bold>\<open>Claim C2\<close> (result invariant). The claim: every successful invocation, on the
  structured path as on the free-text path, returns a GenerationResult, an object whose
  \<open>files\<close> holds at least two entries with a string \<open>path\<close> and a string \<open>content\<close>.

  The free-text path ends in \<open>StructuredA2AServerOutputSchema.parse\<close> and keeps that
  promise (lemma \<open>pipeline_result_cases\<close>). The \<open>try\<close> block returns \<open>resp.parsed\<close> as
  soon as it is truthy and never applies the schema, although the function documents its
  result as \<open>{ files: [{ path, content }, ...] }\<close> and declares it of the schema's type.
  The theorem runs the pipeline with a structured call that resolves with the empty object
  as \<open>parsed\<close>: the invocation succeeds with the empty object, which is no
  GenerationResult and which the schema, applied as on the free-text path, rejects.
\<close>

theorem structured_result_unchecked:
  "fst (generatePythonA2AServer (sample_env (Resolved (Object [])) Rejected) sample_params)
     = Inr (Object [])
   \<and> \<not> is_generation_result (Object [])
   \<and> StructuredA2AServerOutputSchema_parse (Object []) = Inl ZodError"
  by (simp add: generatePythonA2AServer_def sample_env_simps is_generation_result_def own_keys_def
      StructuredA2AServerOutputSchema_parse_def)

text \<open>
  \<^bold>\<open>Claim C3\<close> (normalizer round trip). Let \<open>t\<close> and \<open>t'\<close> be two texts of a JSON object
  (its compact and its pretty-printed stringification, say) that \<open>JSON.parse\<close> reads as the
  value \<open>obj\<close>. Normalizing \<open>t\<close> gives \<open>obj\<close> back, so the result has a \<open>files\<close> property
  exactly when \<open>obj\<close> has; normalizing \<open>t'\<close> gives the same value; and so does normalizing
  either text between an opening fence, tagged \<open>json\<close> in any case or untagged, and a
  closing fence, with any white space between the fences and the text.
\<close>

theorem normalizer_round_trip:
  assumes "is_object_text t" and "JSON_parse E t = Some obj"
    and "is_object_text t'" and "JSON_parse E t' = Some obj"
    and "is_fence_tag tag" and "list_all is_space ws1" and "list_all is_space ws2"
  shows "normalize_output E t = Inr obj
       \<and> (\<exists>r. normalize_output E t = Inr r
              \<and> (''files'' \<in> set (own_keys r) \<longleftrightarrow> ''files'' \<in> set (own_keys obj)))
       \<and> normalize_output E t' = normalize_output E t
       \<and> normalize_output E (fence @ tag @ ws1 @ t @ ws2 @ fence) = normalize_output E t
       \<and> normalize_output E (fence @ tag @ ws1 @ t' @ ws2 @ fence) = normalize_output E t"
proof -
  have 1: "normalize_output E t = Inr obj"
    using assms(1,2) by (simp add: normalize_output_direct stripCodeFences_object_text)
  have 2: "normalize_output E t' = Inr obj"
    using assms(3,4) by (simp add: normalize_output_direct stripCodeFences_object_text)
  have 3: "normalize_output E (fence @ tag @ ws1 @ t @ ws2 @ fence) = Inr obj"
    using assms(1,2,5,6,7) by (simp add: normalize_output_direct stripCodeFences_wrapped)
  have 4: "normalize_output E (fence @ tag @ ws1 @ t' @ ws2 @ fence) = Inr obj"
    using assms(3,4,5,6,7) by (simp add: normalize_output_direct stripCodeFences_wrapped)
  show ?thesis by (simp add: 1 2 3 4)
qed

theorem normalizer_round_trip_witness:
  \<open>normalize_output (sample_env Rejected Rejected) flat_text = Inr flat_value
   \<and> normalize_output (sample_env Rejected Rejected) flat_pretty_text = Inr flat_value
   \<and> normalize_output (sample_env Rejected Rejected)
        (fence @ ''json'' @ ''\<newline>'' @ flat_text @ ''\<newline>'' @ fence) = Inr flat_value
   \<and> normalize_output (sample_env Rejected Rejected)
        (fence @ ''json'' @ ''\<newline>'' @ flat_pretty_text @ ''\<newline>'' @ fence) = Inr flat_value
   \<and> ''files'' \<in> set (own_keys flat_value)\<close>
proof -
  let ?E = "sample_env Rejected Rejected"
  have a: "is_object_text flat_text" "is_object_text flat_pretty_text"
    by (simp_all add: is_object_text_def flat_text_def flat_pretty_text_def)
  have b: "JSON_parse ?E flat_text = Some flat_value" "JSON_parse ?E flat_pretty_text = Some flat_value"
    by (simp_all add: sample_env_simps JSON_parse_sample_def flat_text_def flat_pretty_text_def
        two_files_text_def two_lines_text_def mixed_files_text_def)
  have c: "is_fence_tag ''json''" "list_all is_space ''\<newline>''"
    by (simp_all add: is_fence_tag_def is_space_def)
  from normalizer_round_trip [OF a(1) b(1) a(2) b(2) c(1) c(2) c(2)]
  show ?thesis by (simp add: flat_value_def own_keys_def)
qed






text \<open>
  \<^bold>\<open>Claim C6\<close> (minimum-count gate). For a parsed object whose \<open>files\<close> is an array:
  with exactly one well-formed entry both validators fail, \<open>coerceServerShape\<close> with its
  missing-files error and the schema with its own; with two or more entries, all
  well-formed, both succeed, whatever the number, and return every entry with its \<open>path\<close>
  and its \<open>content\<close>, so that entries with equal paths all pass through.
\<close>

theorem minimum_count_gate:
  assumes "is_plain_object v" and "field ''files'' v = Array fs"
  shows "(length (filter file_schema_ok fs) = 1 \<longrightarrow>
            coerceServerShape v = Inl MissingFilesArray
            \<and> StructuredA2AServerOutputSchema_parse v = Inl ZodError)
       \<and> (list_all file_schema_ok fs \<and> 2 \<le> length fs \<longrightarrow>
            coerceServerShape v = Inr (Object [(''files'', Array (map pick_file fs))])
            \<and> StructuredA2AServerOutputSchema_parse v
                = Inr (Object [(''files'', Array (map pick_file fs))])
            \<and> map (field ''path'') (map pick_file fs) = map (field ''path'') fs
            \<and> map (field ''content'') (map pick_file fs) = map (field ''content'') fs)"
proof (intro conjI impI)
  assume one: "length (filter file_schema_ok fs) = 1"
  have no: "\<not> (list_all file_schema_ok fs \<and> 2 \<le> length fs)"
  proof
    assume "list_all file_schema_ok fs \<and> 2 \<le> length fs"
    then have "filter file_schema_ok fs = fs" and "2 \<le> length fs"
      by (simp_all add: list_all_iff)
    with one show False by simp
  qed
  from one assms show "coerceServerShape v = Inl MissingFilesArray"
    by (simp add: coerce_object filter_keep_file)
  from no assms show "StructuredA2AServerOutputSchema_parse v = Inl ZodError"
    by (simp add: schema_object)
next
  assume ok: "list_all file_schema_ok fs \<and> 2 \<le> length fs"
  with assms show "coerceServerShape v = Inr (Object [(''files'', Array (map pick_file fs))])"
    by (simp add: coerce_object filter_keep_all)
  from ok assms show "StructuredA2AServerOutputSchema_parse v
      = Inr (Object [(''files'', Array (map pick_file fs))])"
    by (simp add: schema_object)
  show "map (field ''path'') (map pick_file fs) = map (field ''path'') fs"
    by (simp add: pick_file_fields)
  show "map (field ''content'') (map pick_file fs) = map (field ''content'') fs"
    by (simp add: pick_file_fields)
qed

theorem minimum_count_gate_witness:
  "coerceServerShape (Object [(''files'', Array [one_file])]) = Inl MissingFilesArray
   \<and> StructuredA2AServerOutputSchema_parse (Object [(''files'', Array [one_file])]) = Inl ZodError
   \<and> coerceServerShape (Object [(''files'', Array [one_file, one_file])])
       = Inr (Object [(''files'', Array [one_file, one_file])])
   \<and> StructuredA2AServerOutputSchema_parse (Object [(''files'', Array [one_file, one_file])])
       = Inr (Object [(''files'', Array [one_file, one_file])])"
proof -
  have ok: "file_schema_ok one_file" by (simp add: one_file_def file_schema_ok_def)
  have pk: "pick_file one_file = one_file" by (simp add: one_file_def pick_file_def)
  show ?thesis
    using minimum_count_gate [of "Object [(''files'', Array [one_file])]" "[one_file]"]
      minimum_count_gate [of "Object [(''files'', Array [one_file, one_file])]" "[one_file, one_file]"]
    by (simp add: ok pk)
qed

text \<open>
  \<^bold>\<open>Claim C7\<close> (validator idempotence). For an object whose only property \<open>files\<close> holds at
  least two GeneratedFiles, both validators succeed, and the files returned carry, place
  by place, the same properties with the same values as the files given. Where the given
  files list \<open>path\<close> before \<open>content\<close>, the value returned is the value given.
\<close>

theorem validator_idempotent:
  assumes "2 \<le> length fs" and "list_all is_generated_file fs"
  shows "StructuredA2AServerOutputSchema_parse (Object [(''files'', Array fs)])
           = Inr (Object [(''files'', Array (map pick_file fs))])
       \<and> coerceServerShape (Object [(''files'', Array fs)])
           = Inr (Object [(''files'', Array (map pick_file fs))])
       \<and> list_all2 same_properties (map pick_file fs) fs
       \<and> (list_all (\<lambda>f. own_keys f = [''path'', ''content'']) fs \<longrightarrow> map pick_file fs = fs)"
proof (intro conjI impI)
  from assms(2) have ok: "list_all file_schema_ok fs"
    by (simp add: list_all_iff generated_file_ok)
  with assms(1) show "StructuredA2AServerOutputSchema_parse (Object [(''files'', Array fs)])
           = Inr (Object [(''files'', Array (map pick_file fs))])"
    by (simp add: schema_object)
  from ok assms(1) show "coerceServerShape (Object [(''files'', Array fs)])
           = Inr (Object [(''files'', Array (map pick_file fs))])"
    by (simp add: coerce_object filter_keep_all)
  from assms(2) show "list_all2 same_properties (map pick_file fs) fs"
    by (simp add: list_all2_map1 list_all2_same list_all_iff pick_file_same_properties)
next
  assume "list_all (\<lambda>f. own_keys f = [''path'', ''content'']) fs"
  with assms(2) show "map pick_file fs = fs"
    by (simp add: map_idI list_all_iff pick_file_id)
qed

theorem validator_idempotent_witness:
  "StructuredA2AServerOutputSchema_parse two_files_value = Inr two_files_value
   \<and> coerceServerShape two_files_value = Inr two_files_value"
proof -
  define fs where "fs = elements (field ''files'' two_files_value)"
  have v: "two_files_value = Object [(''files'', Array fs)]"
    by (simp add: fs_def two_files_value_def)
  have 1: "2 \<le> length fs" by (simp add: fs_def two_files_value_def)
  have 2: "list_all is_generated_file fs"
    by (simp add: fs_def two_files_value_def is_generated_file_def own_keys_def)
  have 3: "list_all (\<lambda>f. own_keys f = [''path'', ''content'']) fs"
    by (simp add: fs_def two_files_value_def own_keys_def)
  show ?thesis using validator_idempotent [OF 1 2] 3 by (simp add: v)
qed

text \<open>
  \<^bold>\<open>Claim C9\<close> (input rejection). The claim: a request without an \<open>agentDescription\<close> is
  answered with a rejection before any generation. For a body that is an object without a
  truthy \<open>agentDescription\<close>, for any other non-null JSON body, and for a body that is not
  JSON at all, the handler answers 400 without invoking the generator (lemmas
  \<open>POST_rejects_missing_description\<close> and \<open>POST_no_generation_without_description\<close>). For
  the JSON body \<open>null\<close> the destructuring throws instead: \<open>req.json()\<close> resolves, so the
  \<open>catch\<close> that substitutes the empty object does not apply, and the handler ends with a
  \<open>TypeError\<close> rather than the 400 response. No generation is attempted there either.
\<close>

theorem POST_null_body_throws:
  "POST generate generateAsync \<lparr> body_json = Some Null, zip_param = z \<rparr> = (Throws TypeError, [])"
  by (simp add: POST_def)

text \<open>
  \<^bold>\<open>Claim C10\<close> (extra fields are stripped). When the schema accepts a parsed value, the
  result has the single property \<open>files\<close>, with as many entries as the input; each entry
  has exactly the properties \<open>path\<close> and \<open>content\<close>, both strings, with the values of the
  input entry at the same place. Whatever else the input entries or the input object
  carried is gone.
\<close>

theorem extra_fields_stripped:
  assumes "StructuredA2AServerOutputSchema_parse v = Inr r"
  shows "own_keys r = [''files'']
       \<and> length (elements (field ''files'' r)) = length (elements (field ''files'' v))
       \<and> (\<forall>i < length (elements (field ''files'' v)).
            own_keys (elements (field ''files'' r) ! i) = [''path'', ''content'']
            \<and> field ''path'' (elements (field ''files'' r) ! i)
                = field ''path'' (elements (field ''files'' v) ! i)
            \<and> field ''content'' (elements (field ''files'' r) ! i)
                = field ''content'' (elements (field ''files'' v) ! i)
            \<and> typeof_string (field ''path'' (elements (field ''files'' r) ! i))
            \<and> typeof_string (field ''content'' (elements (field ''files'' r) ! i)))"
proof -
  let ?fs = "elements (field ''files'' v)"
  from assms have r: "r = Object [(''files'', Array (map pick_file ?fs))]"
    and ok: "list_all file_schema_ok ?fs"
    by (rule schema_parse_result)+
  have "\<forall>i < length ?fs. file_schema_ok (?fs ! i)"
    using ok by (simp add: list_all_length)
  then show ?thesis
    by (simp add: r own_keys_def pick_file_fields file_schema_ok_def) (simp add: pick_file_def)
qed

theorem extra_fields_stripped_witness:
  "StructuredA2AServerOutputSchema_parse extra_fields_value = Inr two_files_value
   \<and> own_keys two_files_value = [''files'']
   \<and> map own_keys (elements (field ''files'' two_files_value))
       = [[''path'', ''content''], [''path'', ''content'']]"
proof -
  have p: "StructuredA2AServerOutputSchema_parse extra_fields_value = Inr two_files_value"
    by (simp add: StructuredA2AServerOutputSchema_parse_def extra_fields_value_def
        two_files_value_def file_schema_ok_def pick_file_def)
  from extra_fields_stripped [OF p] p show ?thesis
    by (simp add: two_files_value_def own_keys_def)
qed

end
